theory Spec2Isabelle
  imports Main
begin

section \<open>Python values and the builtins used by \<^verbatim>\<open>device.py\<close>\<close>

text \<open>
  The module \<^verbatim>\<open>tensorflow/python/framework/device.py\<close> is dynamically typed: the
  constructor of \<^verbatim>\<open>Device\<close> accepts any object for each of its five arguments. The
  values considered here are \<^verbatim>\<open>None\<close>, integers (unbounded, as in Python) and byte
  strings. Floats, booleans and user objects are outside the model.
\<close>

datatype pyval = PyNone | PyInt int | PyStr string

text \<open>
  Every \<^verbatim>\<open>raise\<close> of the module, and every exception of a builtin it calls, is a
  value. The three \<^verbatim>\<open>ValueError\<close>s are told apart by what their message is built
  from; \<open>error_message\<close> below renders the message text of the source.
\<close>

datatype error =
    InvalidLiteral string
      \<comment> \<open>\<^verbatim>\<open>int(s)\<close> on a string that is no decimal literal: \<^verbatim>\<open>ValueError\<close>\<close>
  | IntTypeError
      \<comment> \<open>\<^verbatim>\<open>int(None)\<close>: \<^verbatim>\<open>TypeError\<close>\<close>
  | DuplicateDeviceType string
      \<comment> \<open>\<^verbatim>\<open>ValueError("Cannot specify multiple device types: %s" % spec)\<close>\<close>
  | UnknownAttribute string string
      \<comment> \<open>\<^verbatim>\<open>ValueError("Unknown attribute: '%s' in '%s'" % (y[0], spec))\<close>\<close>

subsection \<open>\<^verbatim>\<open>str.upper\<close>, \<^verbatim>\<open>str.split\<close>\<close>

definition upper_char :: "char \<Rightarrow> char" where
  "upper_char c =
     (case map_of (zip ''abcdefghijklmnopqrstuvwxyz'' ''ABCDEFGHIJKLMNOPQRSTUVWXYZ'') c of
        Some u \<Rightarrow> u
      | None \<Rightarrow> c)"

definition upper :: "string \<Rightarrow> string" where
  "upper s = map upper_char s"

text \<open>
  \<^verbatim>\<open>s.split(sep)\<close> for a one-character separator. The result is never empty:
  \<^verbatim>\<open>"".split(":") == [""]\<close>. The first branch of the \<open>case\<close> is there for
  totality only (see \<open>split_not_Nil\<close>).
\<close>

fun split :: "char \<Rightarrow> string \<Rightarrow> string list" where
  "split sep [] = [[]]"
| "split sep (c # cs) =
     (case split sep cs of
        [] \<Rightarrow> (if c = sep then [[], []] else [[c]])
      | w # ws \<Rightarrow> (if c = sep then [] # w # ws else (c # w) # ws))"

subsection \<open>\<^verbatim>\<open>str(n)\<close> and \<^verbatim>\<open>int(s)\<close>\<close>

definition digit_char :: "nat \<Rightarrow> char" where
  "digit_char n = ''0123456789'' ! n"

definition digit_val :: "char \<Rightarrow> nat option" where
  "digit_val c = map_of (zip ''0123456789'' [0, 1, 2, 3, 4, 5, 6, 7, 8, 9]) c"

fun str_nat :: "nat \<Rightarrow> string" where
  "str_nat n =
     (if n < 10 then [digit_char n]
      else str_nat (n div 10) @ [digit_char (n mod 10)])"

declare str_nat.simps [simp del]

definition str_int :: "int \<Rightarrow> string" where
  "str_int i = (if i < 0 then CHR ''-'' # str_nat (nat (- i)) else str_nat (nat i))"

text \<open>\<^verbatim>\<open>str(v)\<close>, also what \<^verbatim>\<open>"%s" % v\<close> prints.\<close>

fun py_str :: "pyval \<Rightarrow> string" where
  "py_str PyNone = ''None''"
| "py_str (PyInt i) = str_int i"
| "py_str (PyStr s) = s"

text \<open>
  \<^verbatim>\<open>int(s)\<close> in base 10, as Python 2.7 reads a byte string (the module is written for
  it: \<^verbatim>\<open>from __future__ import ...\<close>): white space around the literal is dropped,
  one sign is allowed, and at least one decimal digit must follow and nothing else.
\<close>

definition is_space :: "char \<Rightarrow> bool" where
  "is_space c \<longleftrightarrow> c \<in> set [CHR '' '', CHR 0x09, CHR 0x0A, CHR 0x0B, CHR 0x0C, CHR 0x0D]"

definition strip :: "string \<Rightarrow> string" where
  "strip s = rev (dropWhile is_space (rev (dropWhile is_space s)))"

fun digits_val :: "nat \<Rightarrow> string \<Rightarrow> nat option" where
  "digits_val acc [] = Some acc"
| "digits_val acc (c # cs) =
     (case digit_val c of
        None \<Rightarrow> None
      | Some v \<Rightarrow> digits_val (10 * acc + v) cs)"

definition int_of_str :: "string \<Rightarrow> error + int" where
  "int_of_str s =
     (let t = strip s;
          (neg, body) =
            (case t of
               [] \<Rightarrow> (False, [])
             | c # r \<Rightarrow>
                 if c = CHR ''-'' then (True, r)
                 else if c = CHR ''+'' then (False, r)
                 else (False, t))
      in if body = [] then Inl (InvalidLiteral s)
         else (case digits_val 0 body of
                 None \<Rightarrow> Inl (InvalidLiteral s)
               | Some n \<Rightarrow> Inr (if neg then - int n else int n)))"

fun py_int :: "pyval \<Rightarrow> error + int" where
  "py_int PyNone = Inl IntTypeError"
| "py_int (PyInt i) = Inr i"
| "py_int (PyStr s) = int_of_str s"

fun error_message :: "error \<Rightarrow> string" where
  "error_message (InvalidLiteral s) =
     ''invalid literal for int() with base 10: '' @ [CHR 0x27] @ s @ [CHR 0x27]"
| "error_message IntTypeError =
     ''int() argument must be a string or a number, not '' @ [CHR 0x27] @ ''NoneType''
       @ [CHR 0x27]"
| "error_message (DuplicateDeviceType spec) =
     ''Cannot specify multiple device types: '' @ spec"
| "error_message (UnknownAttribute y0 spec) =
     ''Unknown attribute: '' @ [CHR 0x27] @ y0 @ [CHR 0x27] @ '' in ''
       @ [CHR 0x27] @ spec @ [CHR 0x27]"

section \<open>The class \<^verbatim>\<open>Device\<close>\<close>

text \<open>
  The attributes of an instance. \<^verbatim>\<open>_job\<close>, \<^verbatim>\<open>_replica\<close> and \<^verbatim>\<open>_task\<close> are written
  by the property setters only, which store \<^verbatim>\<open>None\<close>, a \<^verbatim>\<open>str\<close>, or an \<^verbatim>\<open>int\<close>;
  they are the fields \<open>job\<close>, \<open>replica\<close> and \<open>task\<close>. \<^verbatim>\<open>device_type\<close> and
  \<^verbatim>\<open>device_index\<close> are plain attributes and hold whatever is assigned.
\<close>

record Device =
  job :: "string option"
  replica :: "int option"
  task :: "int option"
  device_type :: pyval
  device_index :: pyval

text \<open>
  A method mutates its receiver and either returns or raises; the receiver's attributes
  afterwards are part of both outcomes.
\<close>

datatype outcome = Return Device | Raise error Device

fun and_then :: "outcome \<Rightarrow> (Device \<Rightarrow> outcome) \<Rightarrow> outcome" where
  "and_then (Return d) f = f d"
| "and_then (Raise e d) f = Raise e d"

fun raised :: "outcome \<Rightarrow> error option" where
  "raised (Return d) = None"
| "raised (Raise e d) = Some e"

subsection \<open>Properties\<close>

text \<open>The getters give the attribute as a Python value.\<close>

definition job_getter :: "Device \<Rightarrow> pyval" where
  "job_getter self = (case job self of None \<Rightarrow> PyNone | Some s \<Rightarrow> PyStr s)"

definition replica_getter :: "Device \<Rightarrow> pyval" where
  "replica_getter self = (case replica self of None \<Rightarrow> PyNone | Some i \<Rightarrow> PyInt i)"

definition task_getter :: "Device \<Rightarrow> pyval" where
  "task_getter self = (case task self of None \<Rightarrow> PyNone | Some i \<Rightarrow> PyInt i)"

definition job_setter :: "pyval \<Rightarrow> Device \<Rightarrow> outcome" where
  "job_setter v self =
     (if v \<noteq> PyNone then Return (self\<lparr>job := Some (py_str v)\<rparr>)
      else Return (self\<lparr>job := None\<rparr>))"

definition replica_setter :: "pyval \<Rightarrow> Device \<Rightarrow> outcome" where
  "replica_setter v self =
     (if v \<noteq> PyNone then
        (case py_int v of
           Inl e \<Rightarrow> Raise e self
         | Inr i \<Rightarrow> Return (self\<lparr>replica := Some i\<rparr>))
      else Return (self\<lparr>replica := None\<rparr>))"

definition task_setter :: "pyval \<Rightarrow> Device \<Rightarrow> outcome" where
  "task_setter v self =
     (if v \<noteq> PyNone then
        (case py_int v of
           Inl e \<Rightarrow> Raise e self
         | Inr i \<Rightarrow> Return (self\<lparr>task := Some i\<rparr>))
      else Return (self\<lparr>task := None\<rparr>))"

subsection \<open>\<^verbatim>\<open>__init__\<close> and \<^verbatim>\<open>_clear\<close>\<close>

text \<open>
  An object before \<^verbatim>\<open>__init__\<close> has run has no attributes; \<open>blank\<close> stands for it, and
  \<^verbatim>\<open>__init__\<close> assigns every field. The call \<^verbatim>\<open>Device(...)\<close> evaluates to the object,
  or raises and yields none.
\<close>

definition blank :: Device where
  "blank = \<lparr>job = None, replica = None, task = None,
            device_type = PyNone, device_index = PyNone\<rparr>"

definition init_device_type :: "pyval \<Rightarrow> pyval" where
  "init_device_type v =
     (if v = PyStr ''cpu'' \<or> v = PyStr ''gpu'' then PyStr (upper (py_str v)) else v)"

definition Device_init :: "pyval \<Rightarrow> pyval \<Rightarrow> pyval \<Rightarrow> pyval \<Rightarrow> pyval \<Rightarrow> error + Device" where
  "Device_init job0 replica0 task0 device_type0 device_index0 =
     (case and_then (job_setter job0 blank) (\<lambda>self.
           and_then (replica_setter replica0 self) (\<lambda>self.
           and_then (task_setter task0 self) (\<lambda>self.
           Return (self\<lparr>device_type := init_device_type device_type0,
                        device_index := device_index0\<rparr>)))) of
        Return self \<Rightarrow> Inr self
      | Raise e self \<Rightarrow> Inl e)"

definition clear :: "Device \<Rightarrow> Device" where
  "clear self = self\<lparr>job := None, replica := None, task := None,
                     device_type := PyNone, device_index := PyNone\<rparr>"

subsection \<open>\<^verbatim>\<open>parse_from_string\<close>\<close>

text \<open>
  One iteration of the loop over \<^verbatim>\<open>splits\<close>, for the segment \<open>y\<close> (a list of
  \<^verbatim>\<open>:\<close>-separated tokens). Each index read is under the length test that guards it in
  the source.
\<close>

definition set_index :: "string \<Rightarrow> Device \<Rightarrow> outcome" where
  "set_index tok self =
     (case py_int (PyStr tok) of
        Inl e \<Rightarrow> Raise e self
      | Inr i \<Rightarrow> Return (self\<lparr>device_index := PyInt i\<rparr>))"

definition parse_segment :: "string \<Rightarrow> string list \<Rightarrow> Device \<Rightarrow> outcome" where
  "parse_segment spec y self =
     (let ly = length y in
      if y \<noteq> [] then
        if ly = 2 \<and> y ! 0 = ''job'' then job_setter (PyStr (y ! 1)) self
        else if ly = 2 \<and> y ! 0 = ''replica'' then replica_setter (PyStr (y ! 1)) self
        else if ly = 2 \<and> y ! 0 = ''task'' then task_setter (PyStr (y ! 1)) self
        else if (ly = 1 \<or> ly = 2) \<and> (upper (y ! 0) = ''GPU'' \<or> upper (y ! 0) = ''CPU'') then
          if device_type self \<noteq> PyNone then Raise (DuplicateDeviceType spec) self
          else
            (let self = self\<lparr>device_type := PyStr (upper (y ! 0))\<rparr> in
             if ly = 2 \<and> y ! 1 \<noteq> ''*'' then set_index (y ! 1) self
             else Return self)
        else if ly = 3 \<and> y ! 0 = ''device'' then
          if device_type self \<noteq> PyNone then Raise (DuplicateDeviceType spec) self
          else
            (let self = self\<lparr>device_type := PyStr (y ! 1)\<rparr> in
             if y ! 2 \<noteq> ''*'' then set_index (y ! 2) self
             else Return self)
        else if ly \<noteq> 0 \<and> y ! 0 \<noteq> '''' then Raise (UnknownAttribute (y ! 0) spec) self
        else Return self
      else Return self)"

fun parse_loop :: "string \<Rightarrow> string list list \<Rightarrow> Device \<Rightarrow> outcome" where
  "parse_loop spec [] self = Return self"
| "parse_loop spec (y # ys) self = and_then (parse_segment spec y self) (parse_loop spec ys)"

definition splits :: "string \<Rightarrow> string list list" where
  "splits spec = map (split CHR '':'') (split CHR ''/'' spec)"

definition parse_from_string :: "Device \<Rightarrow> string \<Rightarrow> outcome" where
  "parse_from_string self spec = parse_loop spec (splits spec) (clear self)"

subsection \<open>\<^verbatim>\<open>merge_from\<close>\<close>

definition merge_from :: "Device \<Rightarrow> Device \<Rightarrow> outcome" where
  "merge_from self dev =
     and_then (if job_getter dev \<noteq> PyNone then job_setter (job_getter dev) self
               else Return self) (\<lambda>self.
     and_then (if replica_getter dev \<noteq> PyNone then replica_setter (replica_getter dev) self
               else Return self) (\<lambda>self.
     and_then (if task_getter dev \<noteq> PyNone then task_setter (task_getter dev) self
               else Return self) (\<lambda>self.
     and_then (if device_type dev \<noteq> PyNone
               then Return (self\<lparr>device_type := device_type dev\<rparr>)
               else Return self) (\<lambda>self.
     if device_index dev \<noteq> PyNone
     then Return (self\<lparr>device_index := device_index dev\<rparr>)
     else Return self))))"

subsection \<open>\<^verbatim>\<open>to_string\<close>\<close>

definition to_string :: "Device \<Rightarrow> string" where
  "to_string self =
     (let dev = '''';
          dev = (if job_getter self \<noteq> PyNone
                 then dev @ ''/job:'' @ py_str (job_getter self) else dev);
          dev = (if replica_getter self \<noteq> PyNone
                 then dev @ ''/replica:'' @ py_str (replica_getter self) else dev);
          dev = (if task_getter self \<noteq> PyNone
                 then dev @ ''/task:'' @ py_str (task_getter self) else dev);
          dev = (if device_type self \<noteq> PyNone then
                   (let device_index_string = ''*'';
                        device_index_string =
                          (if device_index self \<noteq> PyNone
                           then py_str (device_index self) else device_index_string)
                    in dev @ ''/device:'' @ py_str (device_type self) @ '':''
                         @ device_index_string)
                 else dev)
      in dev)"

section \<open>Module-level functions, over a store of \<^verbatim>\<open>Device\<close> objects\<close>

text \<open>
  \<^verbatim>\<open>merge_device\<close> keeps a reference to a \<^verbatim>\<open>Device\<close> inside the function it returns,
  and that function copies the object. A reference is an index into the store; a new
  object is put at the end. A store is never shrunk, so an allocated reference stays
  allocated.
\<close>

type_synonym ref = nat

type_synonym store = "Device list"

definition alloc :: "Device \<Rightarrow> store \<Rightarrow> ref \<times> store" where
  "alloc d h = (length h, h @ [d])"

text \<open>
  \<^verbatim>\<open>from_string(spec)\<close> is \<^verbatim>\<open>Device().parse_from_string(spec)\<close>: the new object is in the
  store whether the parse returns or raises.
\<close>

definition from_string :: "string \<Rightarrow> store \<Rightarrow> (error + ref) \<times> store" where
  "from_string spec h =
     (case Device_init PyNone PyNone PyNone PyNone PyNone of
        Inl e \<Rightarrow> (Inl e, h)
      | Inr d \<Rightarrow>
          (let (r, h) = alloc d h in
           case parse_from_string (h ! r) spec of
             Return d' \<Rightarrow> (Inr r, h[r := d'])
           | Raise e d' \<Rightarrow> (Inl e, h[r := d'])))"

definition check_valid :: "string \<Rightarrow> store \<Rightarrow> (error + unit) \<times> store" where
  "check_valid spec h =
     (case from_string spec h of
        (Inl e, h) \<Rightarrow> (Inl e, h)
      | (Inr r, h) \<Rightarrow> (Inr (), h))"

text \<open>\<^verbatim>\<open>copy.copy(obj)\<close>: a new object with the same attribute values.\<close>

definition copy_copy :: "ref \<Rightarrow> store \<Rightarrow> ref \<times> store" where
  "copy_copy r h = alloc (h ! r) h"

text \<open>\<^verbatim>\<open>self.merge_from(dev)\<close> on two objects of the store.\<close>

definition merge_from_at :: "ref \<Rightarrow> ref \<Rightarrow> store \<Rightarrow> (error + unit) \<times> store" where
  "merge_from_at self dev h =
     (case merge_from (h ! self) (h ! dev) of
        Return d \<Rightarrow> (Inr (), h[self := d])
      | Raise e d \<Rightarrow> (Inl e, h[self := d]))"

text \<open>
  The argument of \<^verbatim>\<open>merge_device\<close> is a \<^verbatim>\<open>Device\<close> (a reference), a string, or
  \<^verbatim>\<open>None\<close>; \<^verbatim>\<open>node_def.device\<close> is a string or \<^verbatim>\<open>None\<close>. \<open>or_empty\<close> is
  \<^verbatim>\<open>x or ""\<close> on such a value.
\<close>

datatype spec_arg = SpecDevice ref | SpecStr string | SpecNone

record node_def =
  device :: "string option"

definition or_empty :: "string option \<Rightarrow> string" where
  "or_empty x = (case x of None \<Rightarrow> '''' | Some s \<Rightarrow> (if s = '''' then '''' else s))"

text \<open>
  The returned \<^verbatim>\<open>_device_function\<close> is a closure whose only free variable is
  \<^verbatim>\<open>spec\<close>, bound to a \<^verbatim>\<open>Device\<close> object when the closure is made and never
  rebound. The closure is represented by that reference; \<open>device_function\<close> is its
  body.
\<close>

datatype closure = DeviceFunction (captured: ref)

fun device_function :: "closure \<Rightarrow> node_def \<Rightarrow> store \<Rightarrow> (error + ref) \<times> store" where
  "device_function (DeviceFunction spec) node h =
     (case from_string (or_empty (device node)) h of
        (Inl e, h) \<Rightarrow> (Inl e, h)
      | (Inr current_device, h) \<Rightarrow>
          (let (copy_spec, h) = copy_copy spec h in
           case merge_from_at copy_spec current_device h of
             (Inl e, h) \<Rightarrow> (Inl e, h)
           | (Inr u, h) \<Rightarrow> (Inr copy_spec, h)))"

fun merge_device :: "spec_arg \<Rightarrow> store \<Rightarrow> (error + closure) \<times> store" where
  "merge_device (SpecDevice r) h = (Inr (DeviceFunction r), h)"
| "merge_device (SpecStr s) h =
     (case from_string (or_empty (Some s)) h of
        (Inl e, h) \<Rightarrow> (Inl e, h)
      | (Inr r, h) \<Rightarrow> (Inr (DeviceFunction r), h))"
| "merge_device SpecNone h =
     (case from_string (or_empty None) h of
        (Inl e, h) \<Rightarrow> (Inl e, h)
      | (Inr r, h) \<Rightarrow> (Inr (DeviceFunction r), h))"

section \<open>Notions of the specification\<close>

text \<open>
  The definitions of this section are not translations of the source: they say, in the
  words of the specification, what the theorems below compare the code with.
\<close>

subsection \<open>The overlay of two specs\<close>

text \<open>
  Each of the five fields is the one of \<open>other\<close> where that is present, and the one of
  \<open>self\<close> where it is absent.
\<close>

definition overlay :: "Device \<Rightarrow> Device \<Rightarrow> Device" where
  "overlay self other =
     \<lparr>job = (case job other of None \<Rightarrow> job self | Some j \<Rightarrow> Some j),
      replica = (case replica other of None \<Rightarrow> replica self | Some i \<Rightarrow> Some i),
      task = (case task other of None \<Rightarrow> task self | Some i \<Rightarrow> Some i),
      device_type = (if device_type other = PyNone then device_type self else device_type other),
      device_index =
        (if device_index other = PyNone then device_index self else device_index other)\<rparr>"

subsection \<open>The segments of the canonical string\<close>

text \<open>
  The segments of the present fields, in the fixed order job, replica, task, device,
  each without its leading \<^verbatim>\<open>/\<close>.
\<close>

definition segments :: "Device \<Rightarrow> string list" where
  "segments d =
     (case job d of None \<Rightarrow> [] | Some j \<Rightarrow> [''job:'' @ j]) @
     (case replica d of None \<Rightarrow> [] | Some i \<Rightarrow> [''replica:'' @ str_int i]) @
     (case task d of None \<Rightarrow> [] | Some i \<Rightarrow> [''task:'' @ str_int i]) @
     (if device_type d = PyNone then []
      else [''device:'' @ py_str (device_type d) @ '':'' @
            (if device_index d = PyNone then ''*'' else py_str (device_index d))])"

subsection \<open>The constrained grammar of the round trip\<close>

text \<open>\<^verbatim>\<open>str.isalnum\<close> on ASCII: the string is not empty and holds letters and digits only.\<close>

definition is_alnum :: "char \<Rightarrow> bool" where
  "is_alnum c \<longleftrightarrow>
     c \<in> set ''ABCDEFGHIJKLMNOPQRSTUVWXYZabcdefghijklmnopqrstuvwxyz0123456789''"

definition alnum_token :: "string \<Rightarrow> bool" where
  "alnum_token s \<longleftrightarrow> s \<noteq> [] \<and> list_all is_alnum s"

text \<open>
  The job has no \<^verbatim>\<open>/\<close> and no \<^verbatim>\<open>:\<close>; replica, task and device index are non-negative
  integers; the device type is \<^verbatim>\<open>CPU\<close>, \<^verbatim>\<open>GPU\<close> or an alphanumeric token; each when
  present.
\<close>

definition constrained :: "Device \<Rightarrow> bool" where
  "constrained d \<longleftrightarrow>
     (case job d of None \<Rightarrow> True | Some j \<Rightarrow> CHR ''/'' \<notin> set j \<and> CHR '':'' \<notin> set j) \<and>
     (case replica d of None \<Rightarrow> True | Some i \<Rightarrow> 0 \<le> i) \<and>
     (case task d of None \<Rightarrow> True | Some i \<Rightarrow> 0 \<le> i) \<and>
     (case device_type d of
        PyNone \<Rightarrow> True
      | PyInt i \<Rightarrow> False
      | PyStr t \<Rightarrow> t = ''CPU'' \<or> t = ''GPU'' \<or> alnum_token t) \<and>
     (case device_index d of PyNone \<Rightarrow> True | PyInt i \<Rightarrow> 0 \<le> i | PyStr t \<Rightarrow> False)"

subsection \<open>The forms of a segment\<close>

text \<open>
  A segment, as its list of \<^verbatim>\<open>:\<close>-separated tokens, names a device kind in the short
  form (\<^verbatim>\<open>CPU\<close> or \<^verbatim>\<open>GPU\<close> in any case, with or without an index) or in the long
  form (\<^verbatim>\<open>device:<kind>:<idx>\<close>).
\<close>

fun short_form :: "string list \<Rightarrow> bool" where
  "short_form [k] \<longleftrightarrow> upper k = ''GPU'' \<or> upper k = ''CPU''"
| "short_form [k, i] \<longleftrightarrow> upper k = ''GPU'' \<or> upper k = ''CPU''"
| "short_form y \<longleftrightarrow> False"

fun long_form :: "string list \<Rightarrow> bool" where
  "long_form [d, k, i] \<longleftrightarrow> d = ''device''"
| "long_form y \<longleftrightarrow> False"

definition device_form :: "string list \<Rightarrow> bool" where
  "device_form y \<longleftrightarrow> short_form y \<or> long_form y"

text \<open>The five recognized forms: \<^verbatim>\<open>job:<name>\<close>, \<^verbatim>\<open>replica:<id>\<close>, \<^verbatim>\<open>task:<id>\<close>, and the two above.\<close>

fun field_form :: "string list \<Rightarrow> bool" where
  "field_form [k, v] \<longleftrightarrow> k = ''job'' \<or> k = ''replica'' \<or> k = ''task''"
| "field_form y \<longleftrightarrow> False"

definition recognized :: "string list \<Rightarrow> bool" where
  "recognized y \<longleftrightarrow> field_form y \<or> device_form y"


subsection \<open>Resolving a candidate against an outer spec\<close>

text \<open>
  The string of the spec that the function returned by \<^verbatim>\<open>merge_device(outer)\<close> gives
  for a node whose device string is \<open>cand\<close>, in an empty store.
\<close>

definition resolve :: "string \<Rightarrow> string \<Rightarrow> error + string" where
  "resolve outer cand =
     (case merge_device (SpecStr outer) [] of
        (Inl e, h) \<Rightarrow> Inl e
      | (Inr f, h) \<Rightarrow>
          (case device_function f \<lparr>device = Some cand\<rparr> h of
             (Inl e, h') \<Rightarrow> Inl e
           | (Inr r, h') \<Rightarrow> Inr (to_string (h' ! r))))"

text \<open>
  Modelled from the spec: the scope stack of the graph builder, which calls the device
  functions, is not part of \<^verbatim>\<open>device.py\<close>. A node made inside nested scopes starts
  with the empty device string; the device functions of the enclosing scopes are applied
  to it from the innermost to the outermost, and after each the node carries the string
  of the spec returned. The list holds the spec strings of the scopes, innermost first.
\<close>

fun apply_scopes :: "string list \<Rightarrow> string \<Rightarrow> error + string" where
  "apply_scopes [] dev = Inr dev"
| "apply_scopes (inner # outer) dev =
     (case resolve inner dev of
        Inl e \<Rightarrow> Inl e
      | Inr dev' \<Rightarrow> apply_scopes outer dev')"

section \<open>Facts about the builtins\<close>

lemma split_not_Nil: "split sep s \<noteq> []"
  by (induction s) (auto split: list.splits)

lemma split_no_sep: "sep \<notin> set s \<Longrightarrow> split sep s = [s]"
  by (induction s) (auto split: list.splits)

lemma split_append_sep: "sep \<notin> set a \<Longrightarrow> split sep (a @ sep # b) = a # split sep b"
  by (induction a) (auto split: list.splits simp: split_not_Nil)

lemma split_joined:
  "sep \<notin> set b \<Longrightarrow> \<forall>x\<in>set bs. sep \<notin> set x \<Longrightarrow>
   split sep (b @ concat (map ((#) sep) bs)) = b # bs"
proof (induction bs arbitrary: b)
  case Nil
  then show ?case by (simp add: split_no_sep)
next
  case (Cons x xs)
  have "split sep (b @ sep # (x @ concat (map ((#) sep) xs))) = b # split sep (x @ concat (map ((#) sep) xs))"
    using Cons.prems(1) by (rule split_append_sep)
  with Cons show ?case by simp
qed

lemma lt10_cases: "n < 10 \<Longrightarrow> n \<in> {0, 1, 2, 3, 4, 5, 6, 7, 8, 9::nat}"
  by auto

lemma digit_val_digit_char: "n < 10 \<Longrightarrow> digit_val (digit_char n) = Some n"
  using lt10_cases [of n] by (auto simp: digit_val_def digit_char_def)

lemma digit_char_in: "n < 10 \<Longrightarrow> digit_char n \<in> set ''0123456789''"
  using lt10_cases [of n] by (auto simp: digit_char_def)

lemma set_str_nat: "set (str_nat n) \<subseteq> set ''0123456789''"
proof (induction n rule: str_nat.induct)
  case (1 n)
  show ?case
  proof (cases "n < 10")
    case True
    then show ?thesis using digit_char_in [of n] by (subst str_nat.simps) simp
  next
    case False
    have "n mod 10 < 10" by simp
    then have "digit_char (n mod 10) \<in> set ''0123456789''" by (rule digit_char_in)
    with False 1 show ?thesis by (subst str_nat.simps) simp
  qed
qed

lemma str_nat_not_Nil: "str_nat n \<noteq> []"
  by (subst str_nat.simps) simp

lemma digits_val_snoc:
  "digits_val acc (cs @ [c]) =
     (case digits_val acc cs of
        None \<Rightarrow> None
      | Some m \<Rightarrow> (case digit_val c of None \<Rightarrow> None | Some v \<Rightarrow> Some (10 * m + v)))"
  by (induction cs arbitrary: acc) (auto split: option.splits)

lemma digits_val_str_nat: "digits_val 0 (str_nat n) = Some n"
proof (induction n rule: str_nat.induct)
  case (1 n)
  show ?case
  proof (cases "n < 10")
    case True
    then show ?thesis by (subst str_nat.simps) (simp add: digit_val_digit_char)
  next
    case False
    with 1 have "digits_val 0 (str_nat (n div 10)) = Some (n div 10)" by simp
    with False show ?thesis
      by (subst str_nat.simps) (simp add: digits_val_snoc digit_val_digit_char)
  qed
qed

lemma dropWhile_none: "\<forall>c\<in>set s. \<not> P c \<Longrightarrow> dropWhile P s = s"
  by (cases s) auto

lemma strip_id: "\<forall>c\<in>set s. \<not> is_space c \<Longrightarrow> strip s = s"
  by (simp add: strip_def dropWhile_none)

lemma digit_not_space: "c \<in> set ''0123456789'' \<Longrightarrow> \<not> is_space c"
  by (auto simp: is_space_def)

lemma str_nat_no_space: "\<forall>c\<in>set (str_nat n). \<not> is_space c"
  using set_str_nat [of n] digit_not_space by blast

lemma str_nat_hd: "\<exists>c r. str_nat n = c # r \<and> c \<noteq> CHR ''-'' \<and> c \<noteq> CHR ''+''"
proof (cases "str_nat n")
  case Nil
  then show ?thesis by (simp add: str_nat_not_Nil)
next
  case (Cons c r)
  then have "c \<in> set ''0123456789''" using set_str_nat [of n] by auto
  then have "c \<noteq> CHR ''-'' \<and> c \<noteq> CHR ''+''" by auto
  with Cons show ?thesis by simp
qed

lemma int_of_str_str_nat: "int_of_str (str_nat n) = Inr (int n)"
proof -
  obtain c r where cr: "str_nat n = c # r" "c \<noteq> CHR ''-''" "c \<noteq> CHR ''+''"
    using str_nat_hd by blast
  have "strip (str_nat n) = str_nat n" by (rule strip_id) (rule str_nat_no_space)
  then show ?thesis
    using cr digits_val_str_nat [of n] by (simp add: int_of_str_def)
qed

lemma int_of_str_minus_str_nat: "int_of_str (CHR ''-'' # str_nat n) = Inr (- int n)"
proof -
  have "\<forall>c\<in>set (CHR ''-'' # str_nat n). \<not> is_space c"
    using str_nat_no_space [of n] by (simp add: is_space_def)
  then have "strip (CHR ''-'' # str_nat n) = CHR ''-'' # str_nat n" by (rule strip_id)
  then show ?thesis
    using digits_val_str_nat [of n] by (simp add: int_of_str_def str_nat_not_Nil)
qed

lemma int_of_str_str_int: "int_of_str (str_int i) = Inr i"
  by (simp add: str_int_def int_of_str_str_nat int_of_str_minus_str_nat)

lemma str_int_no_sep: "CHR ''/'' \<notin> set (str_int i) \<and> CHR '':'' \<notin> set (str_int i)"
  using set_str_nat [of "nat i"] set_str_nat [of "nat (- i)"] by (auto simp: str_int_def)

lemma str_int_not_star: "str_int i \<noteq> ''*''"
  using set_str_nat [of "nat i"] set_str_nat [of "nat (- i)"] by (auto simp: str_int_def)

section \<open>Facts about the class\<close>

lemma and_then_Return [simp]: "and_then x Return = x"
  by (cases x) simp_all

lemma parse_loop_append:
  "parse_loop spec (xs @ ys) d = and_then (parse_loop spec xs d) (parse_loop spec ys)"
proof (induction xs arbitrary: d)
  case Nil
  show ?case by simp
next
  case (Cons x xs)
  show ?case by (cases "parse_segment spec x d") (simp_all add: Cons.IH)
qed

lemma clear_eq_blank: "clear self = blank"
  by (cases self) (simp add: clear_def blank_def)

lemma merge_from_overlay: "merge_from self other = Return (overlay self other)"
  by (cases self; cases other)
     (auto simp: merge_from_def overlay_def job_getter_def job_setter_def replica_getter_def
        replica_setter_def task_getter_def task_setter_def split: option.splits)

lemma Device_init_None: "Device_init PyNone PyNone PyNone PyNone PyNone = Inr blank"
  by (simp add: Device_init_def job_setter_def replica_setter_def task_setter_def
      init_device_type_def blank_def)

lemma from_string_eq:
  "from_string spec h =
     (case parse_from_string blank spec of
        Return d \<Rightarrow> (Inr (length h), h @ [d])
      | Raise e d \<Rightarrow> (Inl e, h @ [d]))"
  by (simp add: from_string_def Device_init_None alloc_def split: outcome.splits)

lemma device_function_eq:
  "r < length h \<Longrightarrow>
   device_function (DeviceFunction r) node h =
     (case parse_from_string blank (or_empty (device node)) of
        Return c \<Rightarrow> (Inr (Suc (length h)), h @ [c, overlay (h ! r) c])
      | Raise e d \<Rightarrow> (Inl e, h @ [d]))"
  by (simp add: from_string_eq copy_copy_def alloc_def merge_from_at_def merge_from_overlay
      nth_append split: outcome.splits)

declare device_function.simps [simp del]

subsection \<open>Parsing the segments that \<open>to_string\<close> writes\<close>

lemma to_string_concat: "to_string d = concat (map ((#) CHR ''/'') (segments d))"
  by (simp add: to_string_def segments_def job_getter_def replica_getter_def task_getter_def
      split: option.splits)

lemma split_job: "CHR '':'' \<notin> set j \<Longrightarrow> split CHR '':'' (''job:'' @ j) = [''job'', j]"
  using split_append_sep [of "CHR '':''" "''job''" j] by (simp add: split_no_sep)

lemma split_replica: "split CHR '':'' (''replica:'' @ str_int i) = [''replica'', str_int i]"
  using split_append_sep [of "CHR '':''" "''replica''" "str_int i"] str_int_no_sep [of i]
  by (simp add: split_no_sep)

lemma split_task: "split CHR '':'' (''task:'' @ str_int i) = [''task'', str_int i]"
  using split_append_sep [of "CHR '':''" "''task''" "str_int i"] str_int_no_sep [of i]
  by (simp add: split_no_sep)

lemma split_device:
  "CHR '':'' \<notin> set t \<Longrightarrow> CHR '':'' \<notin> set i \<Longrightarrow>
   split CHR '':'' (''device:'' @ t @ '':'' @ i) = [''device'', t, i]"
  using split_append_sep [of "CHR '':''" "''device''" "t @ '':'' @ i"]
    split_append_sep [of "CHR '':''" t i]
  by (simp add: split_no_sep)

lemma segment_job:
  "parse_segment spec [''job'', j] s = Return (s\<lparr>job := Some j\<rparr>)"
  by (simp add: parse_segment_def job_setter_def)

lemma segment_replica:
  "parse_segment spec [''replica'', str_int i] s = Return (s\<lparr>replica := Some i\<rparr>)"
  by (simp add: parse_segment_def replica_setter_def int_of_str_str_int)

lemma segment_task:
  "parse_segment spec [''task'', str_int i] s = Return (s\<lparr>task := Some i\<rparr>)"
  by (simp add: parse_segment_def task_setter_def int_of_str_str_int)

lemma segment_device_star:
  "device_type s = PyNone \<Longrightarrow>
   parse_segment spec [''device'', t, ''*''] s = Return (s\<lparr>device_type := PyStr t\<rparr>)"
  by (simp add: parse_segment_def)

lemma segment_device_index:
  "device_type s = PyNone \<Longrightarrow>
   parse_segment spec [''device'', t, str_int i] s =
     Return (s\<lparr>device_type := PyStr t, device_index := PyInt i\<rparr>)"
  by (simp add: parse_segment_def set_index_def int_of_str_str_int str_int_not_star)

lemma segment_empty: "parse_segment spec [''''] s = Return s"
  by (simp add: parse_segment_def upper_def)

lemma sep_not_alnum: "\<not> is_alnum CHR ''/'' \<and> \<not> is_alnum CHR '':''"
  by (simp add: is_alnum_def)

lemma alnum_no_sep: "alnum_token t \<Longrightarrow> CHR ''/'' \<notin> set t \<and> CHR '':'' \<notin> set t"
  using sep_not_alnum unfolding alnum_token_def list_all_iff by blast

lemma segments_no_slash:
  assumes "case job d of None \<Rightarrow> True | Some j \<Rightarrow> CHR ''/'' \<notin> set j"
    and "case device_type d of PyNone \<Rightarrow> True | PyInt n \<Rightarrow> True | PyStr t \<Rightarrow> CHR ''/'' \<notin> set t"
    and "case device_index d of PyNone \<Rightarrow> True | PyInt n \<Rightarrow> True | PyStr t \<Rightarrow> CHR ''/'' \<notin> set t"
  shows "\<forall>x\<in>set (segments d). CHR ''/'' \<notin> set x"
  using assms str_int_no_sep
  by (auto simp: segments_def split: option.splits pyval.splits)

lemma split_to_string:
  assumes "\<forall>x\<in>set (segments d). CHR ''/'' \<notin> set x"
  shows "split CHR ''/'' (to_string d) = [] # segments d"
  using split_joined [of "CHR ''/''" "[]" "segments d"] assms by (simp add: to_string_concat)

lemma split_job_nf:
  "CHR '':'' \<notin> set j \<Longrightarrow>
   split CHR '':'' (CHR ''j'' # CHR ''o'' # CHR ''b'' # CHR '':'' # j) = [''job'', j]"
  using split_job [of j] by simp

lemma split_replica_nf:
  "split CHR '':''
     (CHR ''r'' # CHR ''e'' # CHR ''p'' # CHR ''l'' # CHR ''i'' # CHR ''c'' # CHR ''a'' #
      CHR '':'' # str_int i) = [''replica'', str_int i]"
  using split_replica [of i] by simp

lemma split_task_nf:
  "split CHR '':'' (CHR ''t'' # CHR ''a'' # CHR ''s'' # CHR ''k'' # CHR '':'' # str_int i) =
     [''task'', str_int i]"
  using split_task [of i] by simp

lemma split_device_nf:
  "CHR '':'' \<notin> set t \<Longrightarrow> CHR '':'' \<notin> set i \<Longrightarrow>
   split CHR '':''
     (CHR ''d'' # CHR ''e'' # CHR ''v'' # CHR ''i'' # CHR ''c'' # CHR ''e'' # CHR '':'' #
      t @ CHR '':'' # i) = [''device'', t, i]"
  using split_device [of t i] by simp

lemmas split_segment_simps = split_job_nf split_replica_nf split_task_nf split_device_nf

lemma parse_segments:
  assumes "case job d of None \<Rightarrow> True | Some j \<Rightarrow> CHR '':'' \<notin> set j"
    and "case device_type d of PyNone \<Rightarrow> True | PyInt n \<Rightarrow> False | PyStr t \<Rightarrow> CHR '':'' \<notin> set t"
    and "case device_index d of PyNone \<Rightarrow> True | PyInt n \<Rightarrow> True | PyStr t \<Rightarrow> False"
    and "device_index d \<noteq> PyNone \<longrightarrow> device_type d \<noteq> PyNone"
  shows "parse_loop spec (map (split CHR '':'') (segments d)) blank = Return d"
proof -
  obtain j r t ty ix where d: "d = \<lparr>job = j, replica = r, task = t, device_type = ty, device_index = ix\<rparr>"
    by (cases d) auto
  show ?thesis
    using assms unfolding d
    by (cases j; cases r; cases t; cases ty; cases ix)
       (simp_all add: segments_def blank_def split_segment_simps
          segment_job segment_replica segment_task segment_device_star segment_device_index
          str_int_no_sep del: split.simps)
qed

lemma round_trip_general:
  assumes "case job d of None \<Rightarrow> True | Some j \<Rightarrow> CHR ''/'' \<notin> set j \<and> CHR '':'' \<notin> set j"
    and "case device_type d of PyNone \<Rightarrow> True | PyInt n \<Rightarrow> False
         | PyStr t \<Rightarrow> CHR ''/'' \<notin> set t \<and> CHR '':'' \<notin> set t"
    and "case device_index d of PyNone \<Rightarrow> True | PyInt n \<Rightarrow> True | PyStr t \<Rightarrow> False"
    and "device_index d \<noteq> PyNone \<longrightarrow> device_type d \<noteq> PyNone"
  shows "parse_from_string self (to_string d) = Return d"
proof -
  have "\<forall>x\<in>set (segments d). CHR ''/'' \<notin> set x"
    using assms(1-3) by (intro segments_no_slash) (auto split: option.splits pyval.splits)
  then have "splits (to_string d) = [''''] # map (split CHR '':'') (segments d)"
    by (simp add: splits_def split_to_string)
  moreover have "parse_loop (to_string d) (map (split CHR '':'') (segments d)) blank = Return d"
    using assms by (intro parse_segments) (auto split: option.splits pyval.splits)
  ultimately show ?thesis
    by (simp add: parse_from_string_def clear_eq_blank segment_empty)
qed

lemma constrained_general:
  assumes "constrained d"
  shows "(case job d of None \<Rightarrow> True | Some j \<Rightarrow> CHR ''/'' \<notin> set j \<and> CHR '':'' \<notin> set j) \<and>
    (case device_type d of PyNone \<Rightarrow> True | PyInt n \<Rightarrow> False
         | PyStr t \<Rightarrow> CHR ''/'' \<notin> set t \<and> CHR '':'' \<notin> set t) \<and>
    (case device_index d of PyNone \<Rightarrow> True | PyInt n \<Rightarrow> True | PyStr t \<Rightarrow> False)"
  using assms alnum_no_sep by (auto simp: constrained_def split: option.splits pyval.splits)

subsection \<open>Segments, the loop and the store\<close>

lemma upper_field_names:
  "upper ''job'' = ''JOB''" "upper ''replica'' = ''REPLICA''" "upper ''task'' = ''TASK''"
  by (simp_all add: upper_def upper_char_def)

lemma short_form_not_field:
  assumes "upper k = ''GPU'' \<or> upper k = ''CPU''"
  shows "k \<noteq> ''job'' \<and> k \<noteq> ''replica'' \<and> k \<noteq> ''task''"
  using assms upper_field_names by auto

lemma segment_short:
  assumes "short_form y" and "device_type d = PyNone"
  shows "parse_segment spec y d =
           (let self = d\<lparr>device_type := PyStr (upper (y ! 0))\<rparr> in
            if length y = 2 \<and> y ! 1 \<noteq> ''*'' then set_index (y ! 1) self else Return self)"
proof -
  from assms(1) consider k where "y = [k]" "upper k = ''GPU'' \<or> upper k = ''CPU''"
    | k i where "y = [k, i]" "upper k = ''GPU'' \<or> upper k = ''CPU''"
    by (cases y rule: short_form.cases) auto
  then show ?thesis
  proof cases
    case 1
    then show ?thesis using assms(2) by (auto simp: parse_segment_def)
  next
    case 2
    then show ?thesis
      using assms(2) short_form_not_field [of k] by (auto simp: parse_segment_def)
  qed
qed

lemma segment_long:
  assumes "long_form y" and "device_type d = PyNone"
  shows "parse_segment spec y d =
           (let self = d\<lparr>device_type := PyStr (y ! 1)\<rparr> in
            if y ! 2 \<noteq> ''*'' then set_index (y ! 2) self else Return self)"
proof -
  from assms(1) obtain k i where "y = [''device'', k, i]"
    by (cases y rule: long_form.cases) auto
  then show ?thesis using assms(2) by (simp add: parse_segment_def cong: if_cong)
qed


lemma parse_loop_raises_at:
  assumes "parse_loop spec pre s = Return d" and "parse_segment spec y d = Raise e d'"
  shows "parse_loop spec (pre @ y # post) s = Raise e d'"
  using assms by (simp add: parse_loop_append)

lemma parse_loop_raises_before:
  assumes "parse_loop spec front s = Raise e d"
  shows "parse_loop spec (front @ rest) s = Raise e d"
  using assms by (simp add: parse_loop_append)

lemma parse_loop_raises_somewhere:
  assumes "\<And>d. raised (parse_segment spec y d) \<noteq> None"
  shows "raised (parse_loop spec (pre @ y # post) s) \<noteq> None"
proof (cases "parse_loop spec pre s")
  case (Return d)
  with assms [of d] show ?thesis
    by (cases "parse_segment spec y d") (simp_all add: parse_loop_append)
next
  case (Raise e d)
  then show ?thesis by (simp add: parse_loop_append)
qed

lemma not_recognized_cases:
  assumes "\<not> recognized y" and "y \<noteq> []" and "hd y \<noteq> ''''"
  shows "parse_segment spec y d = Raise (UnknownAttribute (hd y) spec) d"
proof -
  from assms(2) obtain k ks where y: "y = k # ks" by (cases y) auto
  show ?thesis
  proof (cases ks)
    case Nil
    with y assms show ?thesis
      by (auto simp: recognized_def device_form_def parse_segment_def)
  next
    case (Cons v vs)
    note ks = this
    show ?thesis
    proof (cases vs)
      case Nil
      with y ks assms show ?thesis
        by (auto simp: recognized_def device_form_def parse_segment_def)
    next
      case (Cons w ws)
      with y ks assms show ?thesis
        by (cases ws) (auto simp: recognized_def device_form_def parse_segment_def)
    qed
  qed
qed

lemma empty_first_token_skipped:
  assumes "y \<noteq> []" and "hd y = ''''"
  shows "parse_segment spec y d = Return d"
proof -
  from assms obtain ks where y: "y = '''' # ks" by (cases y) auto
  have u: "upper '''' = ''''" by (simp add: upper_def)
  show ?thesis unfolding y by (simp add: parse_segment_def u)
qed

lemma device_form_duplicate:
  assumes "device_form y" and "device_type d \<noteq> PyNone"
  shows "parse_segment spec y d = Raise (DuplicateDeviceType spec) d"
  using assms(1) unfolding device_form_def
proof
  assume "short_form y"
  then consider k where "y = [k]" "upper k = ''GPU'' \<or> upper k = ''CPU''"
    | k i where "y = [k, i]" "upper k = ''GPU'' \<or> upper k = ''CPU''"
    by (cases y rule: short_form.cases) auto
  then show ?thesis
  proof cases
    case 1
    then show ?thesis using assms(2) by (auto simp: parse_segment_def)
  next
    case 2
    then show ?thesis
      using assms(2) short_form_not_field [of k] by (auto simp: parse_segment_def)
  qed
next
  assume "long_form y"
  then obtain k i where "y = [''device'', k, i]"
    by (cases y rule: long_form.cases) auto
  then show ?thesis using assms(2) by (simp add: parse_segment_def)
qed

lemma set_index_type:
  "set_index tok s = Return s' \<Longrightarrow> device_type s' = device_type s"
  by (auto simp: set_index_def split: sum.splits)

lemma device_form_sets_type:
  assumes "device_form y" and "parse_segment spec y d = Return d'"
  shows "device_type d' \<noteq> PyNone"
proof (cases "device_type d = PyNone")
  case False
  with assms show ?thesis by (simp add: device_form_duplicate)
next
  case True
  from assms(1) show ?thesis unfolding device_form_def
  proof
    assume "short_form y"
    with True assms(2) show ?thesis
      by (auto simp: segment_short Let_def dest: set_index_type split: if_splits)
  next
    assume "long_form y"
    with True assms(2) show ?thesis
      by (auto simp: segment_long Let_def dest: set_index_type split: if_splits)
  qed
qed

lemma parse_segment_keeps_type:
  assumes "device_type d \<noteq> PyNone" and "parse_segment spec y d = Return d'"
  shows "device_type d' \<noteq> PyNone"
proof -
  have "device_type d' = device_type d"
    using assms
    by (auto simp: parse_segment_def Let_def job_setter_def replica_setter_def task_setter_def
        split: if_splits sum.splits)
  with assms(1) show ?thesis by simp
qed

lemma parse_loop_keeps_type:
  "device_type d \<noteq> PyNone \<Longrightarrow> parse_loop spec ys d = Return d' \<Longrightarrow> device_type d' \<noteq> PyNone"
proof (induction ys arbitrary: d)
  case Nil
  then show ?case by simp
next
  case (Cons y ys)
  show ?case
  proof (cases "parse_segment spec y d")
    case (Return d1)
    with Cons.prems(1) have "device_type d1 \<noteq> PyNone" by (rule parse_segment_keeps_type)
    moreover from Cons.prems(2) Return have "parse_loop spec ys d1 = Return d'" by simp
    ultimately show ?thesis by (rule Cons.IH)
  next
    case (Raise e d1)
    with Cons.prems(2) show ?thesis by simp
  qed
qed

lemma two_device_segments:
  assumes "device_form y1" and "device_form y2"
    and "parse_loop spec (pre @ y1 # mid) s = Return d"
  shows "parse_segment spec y2 d = Raise (DuplicateDeviceType spec) d"
proof -
  from assms(3) obtain d0 where 0: "parse_loop spec pre s = Return d0"
    by (cases "parse_loop spec pre s") (simp_all add: parse_loop_append)
  with assms(3) obtain d1 where 1: "parse_segment spec y1 d0 = Return d1"
    by (cases "parse_segment spec y1 d0") (simp_all add: parse_loop_append)
  with 0 assms(3) have 2: "parse_loop spec mid d1 = Return d"
    by (simp add: parse_loop_append)
  from assms(1) 1 have "device_type d1 \<noteq> PyNone" by (rule device_form_sets_type)
  then have "device_type d \<noteq> PyNone" using 2 by (rule parse_loop_keeps_type)
  with assms(2) show ?thesis by (rule device_form_duplicate)
qed

lemma or_empty_Some: "or_empty (Some s) = s"
  by (simp add: or_empty_def)

lemma merge_device_str_eq:
  "merge_device (SpecStr s) h =
     (case parse_from_string blank s of
        Return d \<Rightarrow> (Inr (DeviceFunction (length h)), h @ [d])
      | Raise e d \<Rightarrow> (Inl e, h @ [d]))"
  by (simp add: or_empty_Some from_string_eq split: outcome.splits)

lemma device_function_extends:
  assumes "r < length h"
  shows "\<exists>new. snd (device_function (DeviceFunction r) node h) = h @ new \<and>
           (\<forall>k. fst (device_function (DeviceFunction r) node h) = Inr k \<longrightarrow>
                 k = Suc (length h) \<and> length new = 2)"
  using assms by (cases "parse_from_string blank (or_empty (device node))")
    (simp_all add: device_function_eq)

lemma merge_device_captured:
  assumes "merge_device a h0 = (Inr f, h1)"
    and "case a of SpecDevice r \<Rightarrow> r < length h0 | SpecStr s \<Rightarrow> True | SpecNone \<Rightarrow> True"
  shows "captured f < length h1"
  using assms
  by (cases a) (auto simp: from_string_eq split: outcome.splits)

section \<open>The claims\<close>

subsection \<open>C1: round trip through \<open>to_string\<close> and \<open>parse_from_string\<close>\<close>

text \<open>
  C1, as stated, fails: a spec whose device index is present and whose device type is
  absent meets every condition of the constrained grammar, \<open>to_string\<close> writes no
  device segment for it, and parsing the result leaves the device index absent.
\<close>

theorem round_trip_counterexample:
  "constrained (blank\<lparr>device_index := PyInt 0\<rparr>) \<and>
   parse_from_string blank (to_string (blank\<lparr>device_index := PyInt 0\<rparr>)) = Return blank \<and>
   blank \<noteq> blank\<lparr>device_index := PyInt 0\<rparr>"
  by (simp add: constrained_def blank_def to_string_def job_getter_def replica_getter_def
      task_getter_def parse_from_string_def splits_def clear_def parse_segment_def upper_def)

text \<open>
  C1, amended: for every spec \<open>d\<close> of the constrained grammar whose device index is
  present only if its device type is, parsing \<open>to_string d\<close> (into any receiver)
  returns, and the receiver then has the five fields of \<open>d\<close>.
\<close>

theorem round_trip:
  assumes "constrained d" and "device_index d \<noteq> PyNone \<longrightarrow> device_type d \<noteq> PyNone"
  shows "parse_from_string self (to_string d) = Return d"
  using constrained_general [OF assms(1)] assms(2) by (intro round_trip_general) simp_all

theorem round_trip_witness:
  "constrained \<lparr>job = Some ''worker'', replica = Some 1, task = Some 3,
                 device_type = PyStr ''GPU'', device_index = PyInt 0\<rparr> \<and>
   parse_from_string blank
     (to_string \<lparr>job = Some ''worker'', replica = Some 1, task = Some 3,
                  device_type = PyStr ''GPU'', device_index = PyInt 0\<rparr>) =
   Return \<lparr>job = Some ''worker'', replica = Some 1, task = Some 3,
            device_type = PyStr ''GPU'', device_index = PyInt 0\<rparr>"
proof -
  let ?d = "\<lparr>job = Some ''worker'', replica = Some 1, task = Some 3,
             device_type = PyStr ''GPU'', device_index = PyInt 0\<rparr>"
  have c: "constrained ?d" by (simp add: constrained_def)
  have i: "device_index ?d \<noteq> PyNone \<longrightarrow> device_type ?d \<noteq> PyNone" by simp
  show ?thesis using c round_trip [OF c i, of blank] by blast
qed

subsection \<open>C2: the function returned by \<open>merge_device\<close>\<close>

text \<open>
  C2: for an outer spec string \<open>s\<close> and a candidate string \<open>c\<close> that both parse,
  \<^verbatim>\<open>merge_device(s)\<close> returns a function \<open>f\<close> that holds the parsed outer spec. In
  every store in which the captured spec still is that outer spec (the store that
  \<^verbatim>\<open>merge_device\<close> left, or any later one, so also after earlier calls of \<open>f\<close>), \<open>f\<close>
  applied to a node whose device string is \<open>c\<close> returns a new object, other than the
  captured one: the copy, which is the outer spec overlaid with the parsed candidate
  (each field is the candidate's where that is present and the outer one where it is
  absent). The captured spec and all earlier objects are as before. In the nested example
  (\<^verbatim>\<open>/job:worker\<close>, then \<^verbatim>\<open>/device:GPU:0\<close>, then \<^verbatim>\<open>/device:CPU:0\<close>, then \<^verbatim>\<open>/job:ps\<close>)
  the three levels resolve to \<^verbatim>\<open>/job:worker/device:GPU:0\<close>, \<^verbatim>\<open>/job:worker/device:CPU:0\<close>
  and \<^verbatim>\<open>/job:ps/device:CPU:0\<close>, both when each resolved spec is the outer spec of the
  next candidate and when the functions of the enclosing scopes are applied from the
  innermost to the outermost.
\<close>

theorem merge_device_overlay:
  assumes "parse_from_string blank s = Return outer"
    and "parse_from_string blank c = Return cand"
  shows "(\<exists>f h1 r h2.
            merge_device (SpecStr s) h = (Inr f, h1) \<and> h1 ! captured f = outer \<and>
            device_function f \<lparr>device = Some c\<rparr> h1 = (Inr r, h2) \<and>
            r < length h2 \<and> h2 ! r = overlay outer cand) \<and>
         (\<exists>f h1.
            merge_device (SpecStr s) h = (Inr f, h1) \<and>
            captured f < length h1 \<and> h1 ! captured f = outer \<and>
            (\<forall>h'. captured f < length h' \<and> h' ! captured f = outer \<longrightarrow>
               (\<exists>r h2.
                  device_function f \<lparr>device = Some c\<rparr> h' = (Inr r, h2) \<and>
                  length h' \<le> r \<and> r < length h2 \<and> r \<noteq> captured f \<and>
                  h2 ! r = overlay outer cand \<and>
                  h2 ! captured f = outer \<and> take (length h') h2 = h'))) \<and>
         resolve ''/job:worker'' ''/device:GPU:0'' = Inr ''/job:worker/device:GPU:0'' \<and>
         resolve ''/job:worker/device:GPU:0'' ''/device:CPU:0'' = Inr ''/job:worker/device:CPU:0'' \<and>
         resolve ''/job:worker/device:CPU:0'' ''/job:ps'' = Inr ''/job:ps/device:CPU:0'' \<and>
         apply_scopes [''/device:GPU:0'', ''/job:worker''] '''' =
           Inr ''/job:worker/device:GPU:0'' \<and>
         apply_scopes [''/device:CPU:0'', ''/device:GPU:0'', ''/job:worker''] '''' =
           Inr ''/job:worker/device:CPU:0'' \<and>
         apply_scopes [''/job:ps'', ''/device:CPU:0'', ''/device:GPU:0'', ''/job:worker''] '''' =
           Inr ''/job:ps/device:CPU:0''"
proof -
  have m: "merge_device (SpecStr s) h = (Inr (DeviceFunction (length h)), h @ [outer])"
    by (subst merge_device_str_eq) (simp add: assms(1))
  have call: "\<exists>r h2.
        device_function (DeviceFunction (length h)) \<lparr>device = Some c\<rparr> h' = (Inr r, h2) \<and>
        length h' \<le> r \<and> r < length h2 \<and> r \<noteq> length h \<and>
        h2 ! r = overlay outer cand \<and> h2 ! length h = outer \<and> take (length h') h2 = h'"
    if v: "length h < length h'" and o: "h' ! length h = outer" for h'
  proof -
    have d: "device_function (DeviceFunction (length h)) \<lparr>device = Some c\<rparr> h' =
               (Inr (Suc (length h')), h' @ [cand, overlay outer cand])"
      using assms(2) o device_function_eq [OF v, of "\<lparr>device = Some c\<rparr>"]
      by (simp add: or_empty_Some)
    show ?thesis
      apply (rule exI [of _ "Suc (length h')"])
      apply (rule exI [of _ "h' @ [cand, overlay outer cand]"])
      using d v o by (simp add: nth_append)
  qed
  have g1: "\<exists>f h1 r h2.
            merge_device (SpecStr s) h = (Inr f, h1) \<and> h1 ! captured f = outer \<and>
            device_function f \<lparr>device = Some c\<rparr> h1 = (Inr r, h2) \<and>
            r < length h2 \<and> h2 ! r = overlay outer cand"
    using m call [of "h @ [outer]"] by auto
  have g2: "\<exists>f h1.
            merge_device (SpecStr s) h = (Inr f, h1) \<and>
            captured f < length h1 \<and> h1 ! captured f = outer \<and>
            (\<forall>h'. captured f < length h' \<and> h' ! captured f = outer \<longrightarrow>
               (\<exists>r h2.
                  device_function f \<lparr>device = Some c\<rparr> h' = (Inr r, h2) \<and>
                  length h' \<le> r \<and> r < length h2 \<and> r \<noteq> captured f \<and>
                  h2 ! r = overlay outer cand \<and>
                  h2 ! captured f = outer \<and> take (length h') h2 = h'))"
    apply (rule exI [of _ "DeviceFunction (length h)"])
    apply (rule exI [of _ "h @ [outer]"])
    using m call by simp
  have e1: "resolve ''/job:worker'' ''/device:GPU:0'' = Inr ''/job:worker/device:GPU:0''"
    by code_simp
  have e2: "resolve ''/job:worker/device:GPU:0'' ''/device:CPU:0'' =
              Inr ''/job:worker/device:CPU:0''"
    by code_simp
  have e3: "resolve ''/job:worker/device:CPU:0'' ''/job:ps'' = Inr ''/job:ps/device:CPU:0''"
    by code_simp
  have a1: "apply_scopes [''/device:GPU:0'', ''/job:worker''] '''' =
           Inr ''/job:worker/device:GPU:0''"
    by code_simp
  have a2: "apply_scopes [''/device:CPU:0'', ''/device:GPU:0'', ''/job:worker''] '''' =
           Inr ''/job:worker/device:CPU:0''"
    by code_simp
  have a3: "apply_scopes [''/job:ps'', ''/device:CPU:0'', ''/device:GPU:0'', ''/job:worker''] '''' =
           Inr ''/job:ps/device:CPU:0''"
    by code_simp
  from g1 g2 e1 e2 e3 a1 a2 a3 show ?thesis by blast
qed

theorem merge_device_overlay_witness:
  "parse_from_string blank ''/job:worker/task:2'' =
     Return (blank\<lparr>job := Some ''worker'', task := Some 2\<rparr>) \<and>
   parse_from_string blank ''/task:7/device:GPU:0'' =
     Return (blank\<lparr>task := Some 7, device_type := PyStr ''GPU'', device_index := PyInt 0\<rparr>) \<and>
   (\<exists>f h1 r h2.
      merge_device (SpecStr ''/job:worker/task:2'') [] = (Inr f, h1) \<and>
      device_function f \<lparr>device = Some ''/task:7/device:GPU:0''\<rparr> h1 = (Inr r, h2) \<and>
      h2 ! r = \<lparr>job = Some ''worker'', replica = None, task = Some 7,
                 device_type = PyStr ''GPU'', device_index = PyInt 0\<rparr>) \<and>
   (\<exists>f h1 r1 h2 r2 h3.
      merge_device (SpecStr ''/job:worker'') [] = (Inr f, h1) \<and>
      device_function f \<lparr>device = Some ''/device:GPU:0''\<rparr> h1 = (Inr r1, h2) \<and>
      to_string (h2 ! r1) = ''/job:worker/device:GPU:0'' \<and>
      device_function f \<lparr>device = Some ''/task:1''\<rparr> h2 = (Inr r2, h3) \<and>
      to_string (h3 ! r2) = ''/job:worker/task:1'' \<and>
      r1 \<noteq> captured f \<and> r2 \<noteq> captured f \<and>
      to_string (h3 ! captured f) = ''/job:worker'')"
proof -
  have o: "parse_from_string blank ''/job:worker/task:2'' =
     Return (blank\<lparr>job := Some ''worker'', task := Some 2\<rparr>)" by code_simp
  have c: "parse_from_string blank ''/task:7/device:GPU:0'' =
     Return (blank\<lparr>task := Some 7, device_type := PyStr ''GPU'', device_index := PyInt 0\<rparr>)"
    by code_simp
  have v: "overlay (blank\<lparr>job := Some ''worker'', task := Some 2\<rparr>)
             (blank\<lparr>task := Some 7, device_type := PyStr ''GPU'', device_index := PyInt 0\<rparr>) =
           \<lparr>job = Some ''worker'', replica = None, task = Some 7,
                 device_type = PyStr ''GPU'', device_index = PyInt 0\<rparr>"
    by (simp add: overlay_def blank_def)
  have first: "\<exists>f h1 r h2.
      merge_device (SpecStr ''/job:worker/task:2'') [] = (Inr f, h1) \<and>
      device_function f \<lparr>device = Some ''/task:7/device:GPU:0''\<rparr> h1 = (Inr r, h2) \<and>
      h2 ! r = \<lparr>job = Some ''worker'', replica = None, task = Some 7,
                 device_type = PyStr ''GPU'', device_index = PyInt 0\<rparr>"
    using merge_device_overlay [OF o c, of "[]"] unfolding v by blast
  let ?w = "blank\<lparr>job := Some ''worker''\<rparr>"
  let ?g = "blank\<lparr>device_type := PyStr ''GPU'', device_index := PyInt 0\<rparr>"
  let ?t = "blank\<lparr>task := Some 1\<rparr>"
  have w: "parse_from_string blank ''/job:worker'' = Return ?w" by code_simp
  have g: "parse_from_string blank ''/device:GPU:0'' = Return ?g" by code_simp
  have t: "parse_from_string blank ''/task:1'' = Return ?t" by code_simp
  have sg: "to_string (overlay ?w ?g) = ''/job:worker/device:GPU:0''" by code_simp
  have st: "to_string (overlay ?w ?t) = ''/job:worker/task:1''" by code_simp
  have sw: "to_string ?w = ''/job:worker''" by code_simp
  from merge_device_overlay [OF w g, of "[]", THEN conjunct2, THEN conjunct1]
  obtain f h1 where
    m: "merge_device (SpecStr ''/job:worker'') [] = (Inr f, h1)"
    and v1: "captured f < length h1" "h1 ! captured f = ?w"
    and call1: "\<forall>h'. captured f < length h' \<and> h' ! captured f = ?w \<longrightarrow>
               (\<exists>r h2.
                  device_function f \<lparr>device = Some ''/device:GPU:0''\<rparr> h' = (Inr r, h2) \<and>
                  length h' \<le> r \<and> r < length h2 \<and> r \<noteq> captured f \<and>
                  h2 ! r = overlay ?w ?g \<and>
                  h2 ! captured f = ?w \<and> take (length h') h2 = h')"
    by blast
  from merge_device_overlay [OF w t, of "[]", THEN conjunct2, THEN conjunct1] m
  have call2: "\<forall>h'. captured f < length h' \<and> h' ! captured f = ?w \<longrightarrow>
               (\<exists>r h2.
                  device_function f \<lparr>device = Some ''/task:1''\<rparr> h' = (Inr r, h2) \<and>
                  length h' \<le> r \<and> r < length h2 \<and> r \<noteq> captured f \<and>
                  h2 ! r = overlay ?w ?t \<and>
                  h2 ! captured f = ?w \<and> take (length h') h2 = h')"
    by auto
  from call1 v1 obtain r1 h2 where
    c1: "device_function f \<lparr>device = Some ''/device:GPU:0''\<rparr> h1 = (Inr r1, h2)"
      "length h1 \<le> r1" "r1 < length h2" "r1 \<noteq> captured f" "h2 ! r1 = overlay ?w ?g"
      "h2 ! captured f = ?w"
    by blast
  from c1(2,3) v1(1) have v2: "captured f < length h2" by simp
  from call2 v2 c1(6) obtain r2 h3 where
    c2: "device_function f \<lparr>device = Some ''/task:1''\<rparr> h2 = (Inr r2, h3)"
      "r2 \<noteq> captured f" "h3 ! r2 = overlay ?w ?t" "h3 ! captured f = ?w"
    by blast
  have second: "\<exists>f h1 r1 h2 r2 h3.
      merge_device (SpecStr ''/job:worker'') [] = (Inr f, h1) \<and>
      device_function f \<lparr>device = Some ''/device:GPU:0''\<rparr> h1 = (Inr r1, h2) \<and>
      to_string (h2 ! r1) = ''/job:worker/device:GPU:0'' \<and>
      device_function f \<lparr>device = Some ''/task:1''\<rparr> h2 = (Inr r2, h3) \<and>
      to_string (h3 ! r2) = ''/job:worker/task:1'' \<and>
      r1 \<noteq> captured f \<and> r2 \<noteq> captured f \<and>
      to_string (h3 ! captured f) = ''/job:worker''"
    using m c1 c2 sg st sw by (metis (no_types))
  from o c first second show ?thesis by blast
qed

subsection \<open>C3: unknown attributes\<close>

text \<open>
  C3, as stated, fails: the last branch of the loop raises only when the first token of
  the segment is not empty (\<^verbatim>\<open>elif ly and y[0] != ""\<close>). The segment \<^verbatim>\<open>:x\<close> is not empty
  and has none of the recognized forms, and \<^verbatim>\<open>/:x\<close> parses without an error, to the
  empty spec.
\<close>

theorem unknown_attribute_counterexample:
  "'':x'' \<in> set (split CHR ''/'' ''/:x'') \<and> '':x'' \<noteq> '''' \<and>
   \<not> recognized (split CHR '':'' '':x'') \<and>
   parse_from_string blank ''/:x'' = Return blank"
  by code_simp

text \<open>
  C3, amended: let a segment of the input have none of the recognized forms. If its first
  token is not empty, \<open>parse_from_string\<close> raises; when the segments before it are
  processed without an error, what it raises is the unknown-attribute error that carries
  this first token and the whole input. If its first token is empty (as for \<^verbatim>\<open>:x\<close>), the
  segment is skipped.
\<close>

theorem unknown_attribute:
  assumes "splits spec = pre @ y # post" and "\<not> recognized y"
  shows "(hd y \<noteq> '''' \<longrightarrow>
            raised (parse_from_string self spec) \<noteq> None \<and>
            (parse_loop spec pre (clear self) = Return d \<longrightarrow>
               parse_from_string self spec = Raise (UnknownAttribute (hd y) spec) d)) \<and>
         (hd y = '''' \<longrightarrow> parse_segment spec y d = Return d)"
proof -
  have "y \<in> set (map (split CHR '':'') (split CHR ''/'' spec))"
    using assms(1) by (simp add: splits_def)
  then have ne: "y \<noteq> []" using split_not_Nil by auto
  have skip: "hd y = '''' \<longrightarrow> parse_segment spec y d = Return d"
    using empty_first_token_skipped [OF ne] by simp
  have "raised (parse_from_string self spec) \<noteq> None \<and>
        (parse_loop spec pre (clear self) = Return d \<longrightarrow>
           parse_from_string self spec = Raise (UnknownAttribute (hd y) spec) d)"
    if h: "hd y \<noteq> ''''"
  proof -
    have seg: "\<And>s. parse_segment spec y s = Raise (UnknownAttribute (hd y) spec) s"
      using not_recognized_cases [OF assms(2) ne h] by simp
    have "raised (parse_loop spec (pre @ y # post) (clear self)) \<noteq> None"
      by (rule parse_loop_raises_somewhere) (simp add: seg)
    moreover have "parse_loop spec pre (clear self) = Return d \<longrightarrow>
        parse_loop spec (pre @ y # post) (clear self) = Raise (UnknownAttribute (hd y) spec) d"
      using seg by (simp add: parse_loop_append)
    ultimately show ?thesis by (simp add: parse_from_string_def assms(1))
  qed
  with skip show ?thesis by blast
qed

theorem unknown_attribute_witness:
  "splits ''/job:a/bogus:x/task:1'' =
     [[''''], [''job'', ''a'']] @ [''bogus'', ''x''] # [[''task'', ''1'']] \<and>
   \<not> recognized [''bogus'', ''x''] \<and>
   parse_loop ''/job:a/bogus:x/task:1'' [[''''], [''job'', ''a'']] (clear blank) =
     Return (blank\<lparr>job := Some ''a''\<rparr>) \<and>
   parse_from_string blank ''/job:a/bogus:x/task:1'' =
     Raise (UnknownAttribute ''bogus'' ''/job:a/bogus:x/task:1'') (blank\<lparr>job := Some ''a''\<rparr>)"
proof -
  have s: "splits ''/job:a/bogus:x/task:1'' =
             [[''''], [''job'', ''a'']] @ [''bogus'', ''x''] # [[''task'', ''1'']]"
    by code_simp
  have n: "\<not> recognized [''bogus'', ''x'']" by code_simp
  have p: "parse_loop ''/job:a/bogus:x/task:1'' [[''''], [''job'', ''a'']] (clear blank) =
     Return (blank\<lparr>job := Some ''a''\<rparr>)" by code_simp
  show ?thesis
    using s n p unknown_attribute [OF s n, of blank "blank\<lparr>job := Some ''a''\<rparr>"] by simp
qed

subsection \<open>C4: coercions of the constructor\<close>

text \<open>
  C4, as stated, fails: the constructor assigns \<^verbatim>\<open>device_index\<close> as a plain attribute,
  so a device index that \<^verbatim>\<open>int\<close> rejects is stored and the construction returns.
\<close>

theorem Device_init_counterexample:
  "py_int (PyStr ''x'') = Inl (InvalidLiteral ''x'') \<and>
   Device_init PyNone PyNone PyNone PyNone (PyStr ''x'') =
     Inr (blank\<lparr>device_index := PyStr ''x''\<rparr>)"
  by code_simp

text \<open>
  C4, amended: the constructor stores \<^verbatim>\<open>str(job)\<close> when the job is present and
  \<^verbatim>\<open>int(replica)\<close>, \<^verbatim>\<open>int(task)\<close> when these are present; when \<^verbatim>\<open>int\<close> raises on a
  present replica, or on a present task after the replica was accepted, the construction
  raises that error and yields no spec. The device index is stored as it is given.
\<close>

theorem Device_init_coercions:
  "(replica0 \<noteq> PyNone \<and> py_int replica0 = Inl e \<longrightarrow>
      Device_init job0 replica0 task0 device_type0 device_index0 = Inl e) \<and>
   ((replica0 = PyNone \<or> py_int replica0 = Inr n) \<and> task0 \<noteq> PyNone \<and> py_int task0 = Inl e \<longrightarrow>
      Device_init job0 replica0 task0 device_type0 device_index0 = Inl e) \<and>
   ((replica0 = PyNone \<or> py_int replica0 = Inr n) \<and> (task0 = PyNone \<or> py_int task0 = Inr m) \<longrightarrow>
      Device_init job0 replica0 task0 device_type0 device_index0 =
        Inr \<lparr>job = (if job0 = PyNone then None else Some (py_str job0)),
             replica = (if replica0 = PyNone then None else Some n),
             task = (if task0 = PyNone then None else Some m),
             device_type = init_device_type device_type0,
             device_index = device_index0\<rparr>)"
  by (auto simp: Device_init_def job_setter_def replica_setter_def task_setter_def blank_def)

theorem Device_init_coercions_witness:
  "Device_init (PyInt 5) (PyInt 1) (PyStr ''x'') PyNone PyNone = Inl (InvalidLiteral ''x'') \<and>
   Device_init (PyInt 5) (PyStr ''x'') (PyInt 1) PyNone PyNone = Inl (InvalidLiteral ''x'') \<and>
   Device_init (PyInt 5) (PyStr ''7'') PyNone (PyStr ''gpu'') (PyStr ''x'') =
     Inr \<lparr>job = Some ''5'', replica = Some 7, task = None,
          device_type = PyStr ''GPU'', device_index = PyStr ''x''\<rparr>"
proof -
  have x: "py_int (PyStr ''x'') = Inl (InvalidLiteral ''x'')" by code_simp
  have s: "py_int (PyStr ''7'') = Inr 7" by code_simp
  have j: "py_str (PyInt 5) = ''5''" by code_simp
  have g: "init_device_type (PyStr ''gpu'') = PyStr ''GPU''" by code_simp
  show ?thesis
    using
      Device_init_coercions [of "PyInt 1" "InvalidLiteral ''x''" "PyInt 5" "PyStr ''x''" PyNone
        PyNone 1 0]
      Device_init_coercions [of "PyStr ''x''" "InvalidLiteral ''x''" "PyInt 5" "PyInt 1" PyNone
        PyNone 0 0]
      Device_init_coercions [of "PyStr ''7''" "InvalidLiteral ''x''" "PyInt 5" PyNone
        "PyStr ''gpu''" "PyStr ''x''" 7 0]
      x s j g
    by simp
qed

subsection \<open>C5: \<open>merge_from\<close>\<close>

text \<open>
  C5, as stated, fails: \<open>merge_from\<close> assigns the device type of the other spec as it
  is, and the upper-casing of \<^verbatim>\<open>cpu\<close> and \<^verbatim>\<open>gpu\<close> is done by the constructor only.
  The spec parsed from \<^verbatim>\<open>/device:cpu:0\<close> has the device type \<^verbatim>\<open>cpu\<close>; merged into an
  empty spec it gives the device type \<^verbatim>\<open>cpu\<close>, not \<^verbatim>\<open>CPU\<close>.
\<close>

theorem merge_from_counterexample:
  "parse_from_string blank ''/device:cpu:0'' =
     Return (blank\<lparr>device_type := PyStr ''cpu'', device_index := PyInt 0\<rparr>) \<and>
   merge_from blank (blank\<lparr>device_type := PyStr ''cpu'', device_index := PyInt 0\<rparr>) =
     Return (blank\<lparr>device_type := PyStr ''cpu'', device_index := PyInt 0\<rparr>) \<and>
   init_device_type (PyStr ''cpu'') = PyStr ''CPU'' \<and>
   device_type (blank\<lparr>device_type := PyStr ''cpu'', device_index := PyInt 0\<rparr>) \<noteq>
     init_device_type (PyStr ''cpu'')"
  by code_simp

text \<open>
  C5, amended: \<open>merge_from\<close> returns, and afterwards each of the five fields of the
  receiver is the field of the other spec where that is present, unchanged and with no
  case normalization, and the receiver's earlier field where it is absent.
\<close>

theorem merge_from_fields:
  "merge_from self other =
     Return \<lparr>job = (case job other of None \<Rightarrow> job self | Some j \<Rightarrow> Some j),
             replica = (case replica other of None \<Rightarrow> replica self | Some i \<Rightarrow> Some i),
             task = (case task other of None \<Rightarrow> task self | Some i \<Rightarrow> Some i),
             device_type =
               (if device_type other = PyNone then device_type self else device_type other),
             device_index =
               (if device_index other = PyNone then device_index self
                else device_index other)\<rparr>"
  using merge_from_overlay [of self other] by (simp add: overlay_def)

theorem merge_from_fields_witness:
  "merge_from
     \<lparr>job = Some ''w'', replica = Some 1, task = None,
       device_type = PyNone, device_index = PyNone\<rparr>
     \<lparr>job = None, replica = None, task = Some 3,
       device_type = PyNone, device_index = PyNone\<rparr> =
   Return \<lparr>job = Some ''w'', replica = Some 1, task = Some 3,
            device_type = PyNone, device_index = PyNone\<rparr>"
  using merge_from_fields
    [of "\<lparr>job = Some ''w'', replica = Some 1, task = None,
          device_type = PyNone, device_index = PyNone\<rparr>"
        "\<lparr>job = None, replica = None, task = Some 3,
          device_type = PyNone, device_index = PyNone\<rparr>"]
  by simp

subsection \<open>C6: a device kind given twice\<close>

text \<open>
  C6, as stated, fails: the segments are processed from left to right and the first
  violation raises. In \<^verbatim>\<open>/cpu:0/bogus/gpu:1\<close> two segments give a device kind, and the
  error raised is the unknown attribute \<^verbatim>\<open>bogus\<close>, met before the second of them.
\<close>

theorem duplicate_device_type_counterexample:
  "splits ''/cpu:0/bogus/gpu:1'' = [[''''], [''cpu'', ''0''], [''bogus''], [''gpu'', ''1'']] \<and>
   device_form [''cpu'', ''0''] \<and> device_form [''gpu'', ''1''] \<and>
   parse_from_string blank ''/cpu:0/bogus/gpu:1'' =
     Raise (UnknownAttribute ''bogus'' ''/cpu:0/bogus/gpu:1'')
       (blank\<lparr>device_type := PyStr ''CPU'', device_index := PyInt 0\<rparr>)"
  by code_simp

text \<open>
  C6, amended: for every input in which two segments give a device kind, each in the
  short or in the long form, \<open>parse_from_string\<close> raises; when the segments before the
  second of them are processed without an error, what it raises is the error of a
  duplicate device type, at that segment. \<^verbatim>\<open>from_string("/device:CPU:0/device:GPU:1")\<close>
  raises it.
\<close>

theorem duplicate_device_type:
  assumes "splits spec = pre @ y1 # mid @ y2 # post" and "device_form y1" and "device_form y2"
  shows "raised (parse_from_string self spec) \<noteq> None \<and>
         (parse_loop spec (pre @ y1 # mid) (clear self) = Return d \<longrightarrow>
            parse_from_string self spec = Raise (DuplicateDeviceType spec) d)"
proof -
  define front where "front = pre @ y1 # mid"
  have sp: "splits spec = front @ y2 # post" using assms(1) by (simp add: front_def)
  have dup: "parse_segment spec y2 d0 = Raise (DuplicateDeviceType spec) d0"
    if "parse_loop spec front (clear self) = Return d0" for d0
    using assms(2,3) that unfolding front_def by (rule two_device_segments)
  have a: "raised (parse_loop spec (front @ y2 # post) (clear self)) \<noteq> None"
  proof (cases "parse_loop spec front (clear self)")
    case (Return d0)
    then show ?thesis using parse_loop_raises_at [OF Return dup [OF Return], of post] by simp
  next
    case (Raise e d0)
    then show ?thesis using parse_loop_raises_before [OF Raise, of "y2 # post"] by simp
  qed
  have b: "parse_loop spec (front @ y2 # post) (clear self) = Raise (DuplicateDeviceType spec) d"
    if r: "parse_loop spec front (clear self) = Return d"
    using parse_loop_raises_at [OF r dup [OF r], of post] .
  from a b show ?thesis unfolding parse_from_string_def sp front_def by blast
qed

theorem duplicate_device_type_witness:
  "splits ''/device:CPU:0/device:GPU:1'' =
     [['''']] @ [''device'', ''CPU'', ''0''] # [] @ [''device'', ''GPU'', ''1''] # [] \<and>
   device_form [''device'', ''CPU'', ''0''] \<and> device_form [''device'', ''GPU'', ''1''] \<and>
   parse_from_string blank ''/device:CPU:0/device:GPU:1'' =
     Raise (DuplicateDeviceType ''/device:CPU:0/device:GPU:1'')
       (blank\<lparr>device_type := PyStr ''CPU'', device_index := PyInt 0\<rparr>)"
proof -
  have s: "splits ''/device:CPU:0/device:GPU:1'' =
     [['''']] @ [''device'', ''CPU'', ''0''] # [] @ [''device'', ''GPU'', ''1''] # []"
    by code_simp
  have f: "device_form [''device'', ''CPU'', ''0'']" "device_form [''device'', ''GPU'', ''1'']"
    by (simp_all add: device_form_def)
  have p: "parse_loop ''/device:CPU:0/device:GPU:1'' ([['''']] @ [''device'', ''CPU'', ''0''] # [])
             (clear blank) = Return (blank\<lparr>device_type := PyStr ''CPU'', device_index := PyInt 0\<rparr>)"
    by code_simp
  show ?thesis
    using s f p
      duplicate_device_type [OF s f, of blank
        "blank\<lparr>device_type := PyStr ''CPU'', device_index := PyInt 0\<rparr>"]
    by simp
qed

subsection \<open>C7: the canonical string\<close>

text \<open>
  C7: \<open>to_string\<close> is the concatenation, in the order job, replica, task, device, of
  \<^verbatim>\<open>/job:<job>\<close>, \<^verbatim>\<open>/replica:<replica>\<close>, \<^verbatim>\<open>/task:<task>\<close> and
  \<^verbatim>\<open>/device:<device_type>:<index>\<close>, each there exactly when its field (for the last,
  the device type) is present; the index is \<^verbatim>\<open>*\<close> when the device index is absent.
  Without a device type the device index is not written, and the spec with no field
  present gives the empty string.
\<close>

theorem to_string_segments:
  "to_string d =
     (case job d of None \<Rightarrow> '''' | Some j \<Rightarrow> ''/job:'' @ j) @
     (case replica d of None \<Rightarrow> '''' | Some i \<Rightarrow> ''/replica:'' @ str_int i) @
     (case task d of None \<Rightarrow> '''' | Some i \<Rightarrow> ''/task:'' @ str_int i) @
     (if device_type d = PyNone then ''''
      else ''/device:'' @ py_str (device_type d) @ '':'' @
           (case device_index d of PyNone \<Rightarrow> ''*'' | PyInt i \<Rightarrow> str_int i | PyStr s \<Rightarrow> s)) \<and>
   (device_type d = PyNone \<longrightarrow> to_string d = to_string (d\<lparr>device_index := PyNone\<rparr>)) \<and>
   (job d = None \<and> replica d = None \<and> task d = None \<and> device_type d = PyNone \<and>
      device_index d = PyNone \<longrightarrow> to_string d = '''')"
  by (simp add: to_string_def job_getter_def replica_getter_def task_getter_def
      split: option.splits pyval.splits)

theorem to_string_segments_witness:
  "to_string \<lparr>job = Some ''w'', replica = Some 1, task = Some 12,
               device_type = PyStr ''GPU'', device_index = PyNone\<rparr> =
     ''/job:w/replica:1/task:12/device:GPU:*'' \<and>
   to_string \<lparr>job = None, replica = None, task = None,
               device_type = PyNone, device_index = PyInt 3\<rparr> = '''' \<and>
   to_string \<lparr>job = None, replica = None, task = None,
               device_type = PyNone, device_index = PyNone\<rparr> = ''''"
  using to_string_segments [of "\<lparr>job = Some ''w'', replica = Some 1, task = Some 12,
               device_type = PyStr ''GPU'', device_index = PyNone\<rparr>"]
    to_string_segments [of "\<lparr>job = None, replica = None, task = None,
               device_type = PyNone, device_index = PyInt 3\<rparr>"]
    to_string_segments [of "\<lparr>job = None, replica = None, task = None,
               device_type = PyNone, device_index = PyNone\<rparr>"]
  by (simp add: str_int_def str_nat.simps digit_char_def)

subsection \<open>C8: the case of the device kind\<close>



subsection \<open>C9: the captured spec is not changed\<close>

text \<open>
  C9: let \<open>f\<close> be the function that \<^verbatim>\<open>merge_device\<close> returns (for a string, or for a
  \<^verbatim>\<open>Device\<close> that is in the store). A call of \<open>f\<close>, whatever the node's device string
  and whether it returns or raises, leaves the captured spec and every other object
  that was in the store as they were. The spec it returns is another object than the
  captured one, so that assigning to the returned spec does not change the captured one.
\<close>

theorem captured_spec_unchanged:
  assumes "merge_device a h0 = (Inr f, h1)"
    and "case a of SpecDevice r \<Rightarrow> r < length h0 | SpecStr s \<Rightarrow> True | SpecNone \<Rightarrow> True"
  shows "captured f < length h1 \<and>
         (captured f < length h \<longrightarrow>
            snd (device_function f node h) ! captured f = h ! captured f \<and>
            take (length h) (snd (device_function f node h)) = h \<and>
            (fst (device_function f node h) = Inr k \<longrightarrow>
               k \<noteq> captured f \<and>
               (snd (device_function f node h))[k := d] ! captured f = h ! captured f))"
proof -
  obtain r where f: "f = DeviceFunction r" by (cases f) auto
  have c: "captured f < length h1" using assms by (rule merge_device_captured)
  have "snd (device_function f node h) ! captured f = h ! captured f \<and>
        take (length h) (snd (device_function f node h)) = h \<and>
        (fst (device_function f node h) = Inr k \<longrightarrow>
           k \<noteq> captured f \<and>
           (snd (device_function f node h))[k := d] ! captured f = h ! captured f)"
    if v: "captured f < length h"
  proof -
    from v have r: "r < length h" by (simp add: f)
    from device_function_extends [OF r, of node] obtain new where
      n: "snd (device_function (DeviceFunction r) node h) = h @ new"
        "\<forall>k. fst (device_function (DeviceFunction r) node h) = Inr k \<longrightarrow>
             k = Suc (length h) \<and> length new = 2"
      by blast
    show ?thesis using r n by (auto simp: f nth_append)
  qed
  with c show ?thesis by blast
qed

theorem captured_spec_unchanged_witness:
  "merge_device (SpecStr ''/job:worker'') [] =
     (Inr (DeviceFunction 0), [blank\<lparr>job := Some ''worker''\<rparr>]) \<and>
   fst (device_function (DeviceFunction 0) \<lparr>device = Some ''/job:ps''\<rparr>
          [blank\<lparr>job := Some ''worker''\<rparr>]) = Inr 2 \<and>
   (snd (device_function (DeviceFunction 0) \<lparr>device = Some ''/job:ps''\<rparr>
          [blank\<lparr>job := Some ''worker''\<rparr>])) [2 := blank] ! 0 = blank\<lparr>job := Some ''worker''\<rparr>"
proof -
  have m: "merge_device (SpecStr ''/job:worker'') [] =
     (Inr (DeviceFunction 0), [blank\<lparr>job := Some ''worker''\<rparr>])" by code_simp
  have a: "case SpecStr ''/job:worker'' of SpecDevice r \<Rightarrow> r < length ([] :: store)
           | SpecStr s \<Rightarrow> True | SpecNone \<Rightarrow> True" by simp
  have k: "fst (device_function (DeviceFunction 0) \<lparr>device = Some ''/job:ps''\<rparr>
          [blank\<lparr>job := Some ''worker''\<rparr>]) = Inr 2" by code_simp
  show ?thesis
    using m k
      captured_spec_unchanged [OF m a, of "[blank\<lparr>job := Some ''worker''\<rparr>]"
        "\<lparr>device = Some ''/job:ps''\<rparr>" 2 blank]
    by simp
qed

subsection \<open>C10: a \<^verbatim>\<open>Device\<close> argument is captured by reference\<close>

text \<open>
  C10: given a \<^verbatim>\<open>Device\<close> object, \<^verbatim>\<open>merge_device\<close> makes no copy: the store is as
  before and the returned function holds the reference itself. When the fields of that
  object are changed to those of any \<open>d'\<close> before the function is called, the call
  makes the copy: it returns a new object, other than the captured one, which is \<open>d'\<close>
  overlaid with the parsed candidate, so it has the values at the time of the call,
  whatever the object held when it was captured. The captured object still holds \<open>d'\<close>
  and the other earlier objects are as before.
\<close>

theorem captured_by_reference:
  assumes "r < length h"
    and "parse_from_string blank (or_empty (device node)) = Return cand"
  shows "merge_device (SpecDevice r) h = (Inr (DeviceFunction r), h) \<and>
         (\<exists>k h'. device_function (DeviceFunction r) node (h[r := d']) = (Inr k, h') \<and>
                  k < length h' \<and> h' ! k = overlay d' cand) \<and>
         (\<exists>k h'. device_function (DeviceFunction r) node (h[r := d']) = (Inr k, h') \<and>
                  length h \<le> k \<and> k < length h' \<and> k \<noteq> r \<and>
                  h' ! k = overlay d' cand \<and> h' ! r = d' \<and>
                  take (length h) h' = h[r := d'])"
proof -
  have "r < length (h[r := d'])" using assms(1) by simp
  then have "device_function (DeviceFunction r) node (h[r := d']) =
               (Inr (Suc (length (h[r := d']))),
                h[r := d'] @ [cand, overlay ((h[r := d']) ! r) cand])"
    using assms(2) by (simp add: device_function_eq)
  then show ?thesis using assms(1) by (simp add: nth_append)
qed

theorem captured_by_reference_witness:
  "merge_device (SpecDevice 0) [blank\<lparr>job := Some ''a''\<rparr>] =
     (Inr (DeviceFunction 0), [blank\<lparr>job := Some ''a''\<rparr>]) \<and>
   (\<exists>k h'. device_function (DeviceFunction 0) \<lparr>device = Some ''/device:CPU:0''\<rparr>
              ([blank\<lparr>job := Some ''a''\<rparr>] [0 := blank\<lparr>job := Some ''b''\<rparr>]) = (Inr k, h') \<and>
            k \<noteq> 0 \<and>
            h' ! k = \<lparr>job = Some ''b'', replica = None, task = None,
                       device_type = PyStr ''CPU'', device_index = PyInt 0\<rparr> \<and>
            h' ! 0 = blank\<lparr>job := Some ''b''\<rparr>)"
proof -
  have l: "0 < length [blank\<lparr>job := Some ''a''\<rparr>]" by simp
  have p: "parse_from_string blank (or_empty (device \<lparr>device = Some ''/device:CPU:0''\<rparr>)) =
             Return (blank\<lparr>device_type := PyStr ''CPU'', device_index := PyInt 0\<rparr>)"
    by code_simp
  have v: "overlay (blank\<lparr>job := Some ''b''\<rparr>)
             (blank\<lparr>device_type := PyStr ''CPU'', device_index := PyInt 0\<rparr>) =
           \<lparr>job = Some ''b'', replica = None, task = None,
             device_type = PyStr ''CPU'', device_index = PyInt 0\<rparr>"
    by (simp add: overlay_def blank_def)
  show ?thesis
    using captured_by_reference [OF l p, of "blank\<lparr>job := Some ''b''\<rparr>"] unfolding v by blast
qed

end
